theory Spec2Isabelle
  imports
    Main
    "HOL-Library.Sublist"
    "HOL-Library.AList"
    "HOL-Library.Char_ord"
    "HOL-Library.List_Lexorder"
begin

section \<open>slack2discord: a Slack export importer\<close>

text \<open>
  The development embeds \<^verbatim>\<open>slack2discord.py\<close>. Python strings are modelled as
  \<^typ>\<open>string\<close>; one \<^typ>\<open>char\<close> stands for one character of a Python \<^verbatim>\<open>str\<close>, so
  \<^const>\<open>length\<close> is Python's \<^verbatim>\<open>len\<close>. A Python \<^verbatim>\<open>dict\<close> is an association list
  with distinct keys in insertion order (the order \<^verbatim>\<open>items()\<close> iterates in), and a
  value that may be \<^verbatim>\<open>None\<close> is an \<^typ>\<open>'a option\<close>. Every exception the code can
  raise is a value of the type \<open>error\<close>.
\<close>

subsection \<open>Exceptions\<close>

datatype error =
    KeyError
  | IndexError
  | TypeError
  | AttributeError
  | ValueError
  | OSError
  | JSONDecodeError
  | HTTPException

subsection \<open>Python string operations\<close>

definition nl :: string where
  "nl = [CHR ''\<newline>'']"

text \<open>\<^verbatim>\<open>s.replace(old, new)\<close>: every non-overlapping occurrence, leftmost first.\<close>

fun replace_from :: "string \<Rightarrow> string \<Rightarrow> string \<Rightarrow> string" where
  "replace_from old new [] = []"
| "replace_from old new (c # cs) =
     (if prefix old (c # cs) then new @ replace_from old new (drop (length old - 1) cs)
      else c # replace_from old new cs)"

definition replace :: "string \<Rightarrow> string \<Rightarrow> string \<Rightarrow> string" where
  "replace s old new =
     (if old = [] then new @ concat (map (\<lambda>c. c # new) s) else replace_from old new s)"

text \<open>\<^verbatim>\<open>old in s\<close> for two strings: \<open>old\<close> occurs in \<open>s\<close> as a contiguous substring.\<close>

fun contains :: "string \<Rightarrow> string \<Rightarrow> bool" where
  "contains old [] = (old = [])"
| "contains old (c # cs) = (prefix old (c # cs) \<or> contains old cs)"

text \<open>\<^verbatim>\<open>s.strip('\n')\<close>: leading and trailing newlines removed.\<close>

definition strip_nl :: "string \<Rightarrow> string" where
  "strip_nl s =
     rev (dropWhile (\<lambda>c. c = CHR ''\<newline>'') (rev (dropWhile (\<lambda>c. c = CHR ''\<newline>'') s)))"

text \<open>
  \<^verbatim>\<open>s[:n]\<close>: for \<open>n \<ge> 0\<close> the first \<open>n\<close> characters; for \<open>n < 0\<close> Python counts the
  bound from the end, so all but the last \<open>-n\<close> characters remain.
\<close>

definition slice_to :: "string \<Rightarrow> int \<Rightarrow> string" where
  "slice_to s n = (if n < 0 then take (nat (int (length s) + n)) s else take (nat n) s)"

subsection \<open>The message transformer: \<^verbatim>\<open>fill_references\<close>\<close>

type_synonym dict = "(string \<times> string) list"

definition MAX_MESSAGE_SIZE :: int where
  "MAX_MESSAGE_SIZE = 2000 - 60"

text \<open>The two substitution loops over \<^verbatim>\<open>users.items()\<close> and \<^verbatim>\<open>channels.items()\<close>.\<close>

definition fill_users :: "dict \<Rightarrow> string \<Rightarrow> string" where
  "fill_users users message =
     fold (\<lambda>(uid, name) m. replace m (''<@'' @ uid @ ''>'') (''@'' @ name)) users message"

definition fill_channels :: "dict \<Rightarrow> string \<Rightarrow> string" where
  "fill_channels channels message =
     fold (\<lambda>(cid, name) m. replace m (''<#'' @ cid @ ''>'') (''#'' @ name)) channels message"

text \<open>
  The loop \<^verbatim>\<open>files_msg = '\n'.join([files_msg, file_url])\<close>. An entry of \<open>files\<close> is
  \<open>None\<close> when the descriptor had no \<^verbatim>\<open>url_private\<close>; \<^verbatim>\<open>join\<close> raises
  \<^verbatim>\<open>TypeError\<close> on it.
\<close>

fun files_msg_loop :: "string \<Rightarrow> string option list \<Rightarrow> error + string" where
  "files_msg_loop files_msg [] = Inr files_msg"
| "files_msg_loop files_msg (None # files) = Inl TypeError"
| "files_msg_loop files_msg (Some file_url # files) =
     files_msg_loop (files_msg @ nl @ file_url) files"

definition fill_references ::
  "string \<Rightarrow> dict option \<Rightarrow> dict option \<Rightarrow> string option list \<Rightarrow> error + string" where
  "fill_references message users channels files =
     (case users of
        None \<Rightarrow> Inl AttributeError
      | Some us \<Rightarrow>
          (case channels of
             None \<Rightarrow> Inl AttributeError
           | Some cs \<Rightarrow>
               (case files_msg_loop [] files of
                  Inl e \<Rightarrow> Inl e
                | Inr files_msg \<Rightarrow>
                    (let message' = fill_channels cs (fill_users us message);
                         limit = MAX_MESSAGE_SIZE - int (length files_msg)
                     in Inr (strip_nl (slice_to message' limit @ nl @ files_msg))))))"

subsection \<open>Paths: \<^verbatim>\<open>os.path\<close> on a POSIX system\<close>

text \<open>\<^verbatim>\<open>os.path.join(a, b)\<close> with two arguments.\<close>

definition path_join :: "string \<Rightarrow> string \<Rightarrow> string" where
  "path_join a b =
     (if prefix ''/'' b then b
      else if a = [] \<or> suffix ''/'' a then a @ b
      else a @ ''/'' @ b)"

text \<open>
  \<^verbatim>\<open>os.path.dirname(p)\<close>: everything up to and including the last slash, with the
  trailing slashes removed unless the head consists of slashes only.
\<close>

definition dirname :: "string \<Rightarrow> string" where
  "dirname p =
     (let head = rev (dropWhile (\<lambda>c. c \<noteq> CHR ''/'') (rev p))
      in if head \<noteq> [] \<and> (\<exists>c \<in> set head. c \<noteq> CHR ''/'')
         then rev (dropWhile (\<lambda>c. c = CHR ''/'') (rev head))
         else head)"

subsection \<open>The export's data, at the schema of a Slack export\<close>

text \<open>
  A JSON object is a record whose fields are optional: \<open>None\<close> is an absent key, and
  \<^verbatim>\<open>obj['k']\<close> on an absent key raises \<^verbatim>\<open>KeyError\<close>. A field that is present has
  the type Slack gives it.
\<close>

record profile =
  display_name :: "string option"
  real_name :: "string option"

record user_entry =
  user_id :: "string option"
  user_entry_profile :: "profile option"

record channel_entry =
  channel_id :: "string option"
  channel_name :: "string option"

record file_info =
  url_private :: "string option"
  file_name :: "string option"
  mimetype :: "string option"

record message =
  msg_ts :: "string option"
  msg_text :: "string option"
  msg_user_profile :: "profile option"
  msg_user :: "string option"
  msg_files :: "file_info list option"

subsection \<open>The collaborators: file system, clock, transport\<close>

datatype response = NetworkError | Response nat string

text \<open>
  What the program reads from and writes to the outside is a parameter of the model.
  \<open>load_*\<close> is \<^verbatim>\<open>open\<close> followed by \<^verbatim>\<open>json.load\<close> (\<open>Inl\<close> when either raises);
  \<open>strftime\<close> is \<^verbatim>\<open>datetime.fromtimestamp(float(ts)).strftime(...)\<close> in the local
  time zone; \<open>send_ok\<close> and \<open>send_file_ok\<close> tell whether the destination accepts a
  text or a file (the send raises otherwise); \<open>http_get\<close> is the download of an
  attachment.
\<close>

record env =
  isdir :: "string \<Rightarrow> bool"
  isfile :: "string \<Rightarrow> bool"
  listdir :: "string \<Rightarrow> string list"
  load_users :: "string \<Rightarrow> error + user_entry list"
  load_channels :: "string \<Rightarrow> error + channel_entry list"
  load_export :: "string \<Rightarrow> error + message list"
  strftime :: "string \<Rightarrow> error + string"
  send_ok :: "string \<Rightarrow> bool"
  send_file_ok :: "string \<Rightarrow> string \<Rightarrow> bool"
  http_get :: "string \<Rightarrow> response"

text \<open>
  The observable behaviour of a run: what was sent to the destination channel, the pauses,
  and the lines \<^verbatim>\<open>import_here\<close> and \<^verbatim>\<open>uploadd_file\<close> print. (The lines printed inside
  \<^verbatim>\<open>get_file_paths\<close>, \<^verbatim>\<open>get_display_names\<close> and \<^verbatim>\<open>get_channel_names\<close> are not
  recorded.)
\<close>

datatype logline =
    Info_attempting string
  | Error_no_json string
  | Info_users_found
  | Warning_no_users
  | Info_channels_found
  | Warning_no_channels
  | Info_parsing string
  | Info_imported string
  | Warning_missing
  | Error_exc error
  | Info_skip_download
  | Info_complete

datatype event =
    Send string
  | SendFile string string
  | Sleep
  | Print logline

subsection \<open>The export locator: \<^verbatim>\<open>get_file_paths\<close>\<close>

definition get_file_paths :: "env \<Rightarrow> string \<Rightarrow> string list" where
  "get_file_paths env file_path =
     (if isdir env file_path
      then map (path_join file_path) (filter (suffix ''.json'') (listdir env file_path))
      else if suffix ''.json'' file_path then [file_path]
      else [])"

subsection \<open>The identity resolver: \<^verbatim>\<open>get_display_names\<close>, \<^verbatim>\<open>get_channel_names\<close>\<close>

text \<open>The loop \<^verbatim>\<open>for user in users_json\<close>; the right-hand side is evaluated first.\<close>

fun display_names_loop :: "user_entry list \<Rightarrow> dict \<Rightarrow> error + dict" where
  "display_names_loop [] users = Inr users"
| "display_names_loop (user # rest) users =
     (case user_entry_profile user of
        None \<Rightarrow> Inl KeyError
      | Some p \<Rightarrow>
          (case display_name p of
             None \<Rightarrow> Inl KeyError
           | Some dn \<Rightarrow>
               (case (if dn \<noteq> [] then Some dn else real_name p) of
                  None \<Rightarrow> Inl KeyError
                | Some name \<Rightarrow>
                    (case user_id user of
                       None \<Rightarrow> Inl KeyError
                     | Some uid \<Rightarrow> display_names_loop rest (AList.update uid name users)))))"

fun channel_names_loop :: "channel_entry list \<Rightarrow> dict \<Rightarrow> error + dict" where
  "channel_names_loop [] channels = Inr channels"
| "channel_names_loop (channel # rest) channels =
     (case channel_name channel of
        None \<Rightarrow> Inl KeyError
      | Some name \<Rightarrow>
          (case channel_id channel of
             None \<Rightarrow> Inl KeyError
           | Some cid \<Rightarrow> channel_names_loop rest (AList.update cid name channels)))"

text \<open>
  Both functions return \<open>None\<close> when the table is not found or when anything raises while
  it is read; \<^verbatim>\<open>json_file_paths[0]\<close> raises \<^verbatim>\<open>IndexError\<close> on an empty list.
\<close>

definition get_display_names :: "env \<Rightarrow> string list \<Rightarrow> error + dict option" where
  "get_display_names env json_file_paths =
     (case json_file_paths of
        [] \<Rightarrow> Inl IndexError
      | first # _ \<Rightarrow>
          (let user_file_path_dir = path_join (dirname first) ''users.json'';
               user_file_path_files = path_join (dirname (dirname first)) ''users.json'';
               load = (\<lambda>file_path.
                 case load_users env file_path of
                   Inl e \<Rightarrow> None
                 | Inr users_json \<Rightarrow>
                     (case display_names_loop users_json [] of
                        Inl e \<Rightarrow> None
                      | Inr users \<Rightarrow> Some users))
           in if isfile env user_file_path_dir then Inr (load user_file_path_dir)
              else if isfile env user_file_path_files then Inr (load user_file_path_files)
              else Inr None))"

definition get_channel_names :: "env \<Rightarrow> string list \<Rightarrow> error + dict option" where
  "get_channel_names env json_file_paths =
     (case json_file_paths of
        [] \<Rightarrow> Inl IndexError
      | first # _ \<Rightarrow>
          (let channel_file_path_dir = path_join (dirname first) ''channels.json'';
               channel_file_path_files = path_join (dirname (dirname first)) ''channels.json'';
               load = (\<lambda>file_path.
                 case load_channels env file_path of
                   Inl e \<Rightarrow> None
                 | Inr channels_json \<Rightarrow>
                     (case channel_names_loop channels_json [] of
                        Inl e \<Rightarrow> None
                      | Inr channels \<Rightarrow> Some channels))
           in if isfile env channel_file_path_dir then Inr (load channel_file_path_dir)
              else if isfile env channel_file_path_files then Inr (load channel_file_path_files)
              else Inr None))"

subsection \<open>The attachment fetcher: \<^verbatim>\<open>uploadd_file\<close>\<close>

text \<open>
  A function that has effects returns the events it produced and the exception that left
  it, if any. The test of \<^verbatim>\<open>mimetype\<close> is outside the \<^verbatim>\<open>try\<close>; the handler formats
  its line with \<^verbatim>\<open>file_info['url_private']\<close>, so an absent \<^verbatim>\<open>url_private\<close> raises
  again from inside the handler.
\<close>

definition uploadd_file :: "env \<Rightarrow> file_info \<Rightarrow> event list \<times> error option" where
  "uploadd_file env file_info =
     (case mimetype file_info of
        None \<Rightarrow> ([], Some KeyError)
      | Some mt \<Rightarrow>
          if contains ''image'' mt then ([], None)
          else
            (case url_private file_info of
               None \<Rightarrow> ([], Some KeyError)
             | Some url \<Rightarrow>
                 (case http_get env url of
                    NetworkError \<Rightarrow> ([Print Info_skip_download], None)
                  | Response status data \<Rightarrow>
                      if status \<noteq> 200 then
                        (if send_ok env ''Could not download file...''
                         then ([Send ''Could not download file...''], None)
                         else ([Print Info_skip_download], None))
                      else
                        (case file_name file_info of
                           None \<Rightarrow> ([Print Info_skip_download], None)
                         | Some n \<Rightarrow>
                             if send_file_ok env n data then ([SendFile n data], None)
                             else ([Print Info_skip_download], None)))))"

fun upload_loop :: "env \<Rightarrow> file_info list \<Rightarrow> event list \<times> error option" where
  "upload_loop env [] = ([], None)"
| "upload_loop env (file_info # rest) =
     (case uploadd_file env file_info of
        (evs, Some e) \<Rightarrow> (evs, Some e)
      | (evs, None) \<Rightarrow> (case upload_loop env rest of (evs', r) \<Rightarrow> (evs @ evs', r)))"

subsection \<open>The import orchestrator: \<^verbatim>\<open>import_here\<close>\<close>

text \<open>The test that guards a message: both keys, and one of the two author references.\<close>

definition has_keys :: "message \<Rightarrow> bool" where
  "has_keys m \<longleftrightarrow>
     (msg_ts m \<noteq> None \<and> msg_text m \<noteq> None) \<and> (msg_user_profile m \<noteq> None \<or> msg_user m \<noteq> None)"

text \<open>The author's name: the inline profile if there is one, the user table otherwise.\<close>

definition username_of :: "dict option \<Rightarrow> message \<Rightarrow> error + string" where
  "username_of users m =
     (case msg_user_profile m of
        Some p \<Rightarrow>
          (case display_name p of
             None \<Rightarrow> Inl KeyError
           | Some dn \<Rightarrow>
               if dn \<noteq> [] then Inr dn
               else (case real_name p of None \<Rightarrow> Inl KeyError | Some rn \<Rightarrow> Inr rn))
      | None \<Rightarrow>
          (case msg_user m of
             None \<Rightarrow> Inl KeyError
           | Some u \<Rightarrow>
               (case users of
                  None \<Rightarrow> Inl TypeError
                | Some us \<Rightarrow>
                    (case map_of us u of None \<Rightarrow> Inl KeyError | Some name \<Rightarrow> Inr name))))"

text \<open>The body of the loop over the messages of one file.\<close>

definition process_message ::
  "env \<Rightarrow> dict option \<Rightarrow> dict option \<Rightarrow> message \<Rightarrow> event list \<times> error option" where
  "process_message env users channels m =
     (if has_keys m then
        (case username_of users m of
           Inl e \<Rightarrow> ([], Some e)
         | Inr username \<Rightarrow>
        (case msg_ts m of
           None \<Rightarrow> ([], Some KeyError)
         | Some t \<Rightarrow>
        (case strftime env t of
           Inl e \<Rightarrow> ([], Some e)
         | Inr timestamp \<Rightarrow>
        (let file_infos = (case msg_files m of None \<Rightarrow> [] | Some fs \<Rightarrow> fs);
             files = map url_private file_infos
         in
        (case msg_text m of
           None \<Rightarrow> ([], Some KeyError)
         | Some raw \<Rightarrow>
        (case fill_references raw users channels files of
           Inl e \<Rightarrow> ([], Some e)
         | Inr text \<Rightarrow>
        (let msg = ''**'' @ username @ ''** *('' @ timestamp @ '')*'' @ nl @ text
         in if \<not> send_ok env msg then ([], Some HTTPException)
            else
              (case upload_loop env file_infos of
                 (evs, Some e) \<Rightarrow> (Send msg # evs, Some e)
               | (evs, None) \<Rightarrow>
                   (Send msg # evs @ [Print (Info_imported msg), Sleep], None)))))))))
      else ([Print Warning_missing], None))"

fun process_messages ::
  "env \<Rightarrow> dict option \<Rightarrow> dict option \<Rightarrow> message list \<Rightarrow> event list \<times> error option" where
  "process_messages env users channels [] = ([], None)"
| "process_messages env users channels (m # ms) =
     (case process_message env users channels m of
        (evs, Some e) \<Rightarrow> (evs, Some e)
      | (evs, None) \<Rightarrow>
          (case process_messages env users channels ms of (evs', r) \<Rightarrow> (evs @ evs', r)))"

text \<open>One export file, with the \<^verbatim>\<open>try\<close>/\<^verbatim>\<open>except Exception\<close> around it.\<close>

definition process_file :: "env \<Rightarrow> dict option \<Rightarrow> dict option \<Rightarrow> string \<Rightarrow> event list" where
  "process_file env users channels json_file =
     Print (Info_parsing json_file) #
     (case load_export env json_file of
        Inl e \<Rightarrow> [Print (Error_exc e)]
      | Inr messages \<Rightarrow>
          (case process_messages env users channels messages of
             (evs, Some e) \<Rightarrow> evs @ [Print (Error_exc e)]
           | (evs, None) \<Rightarrow> evs))"

fun process_files :: "env \<Rightarrow> dict option \<Rightarrow> dict option \<Rightarrow> string list \<Rightarrow> event list" where
  "process_files env users channels [] = []"
| "process_files env users channels (json_file # rest) =
     process_file env users channels json_file @ process_files env users channels rest"

text \<open>Python's truth value of a table: \<open>None\<close> and the empty dictionary are false.\<close>

definition truthy :: "dict option \<Rightarrow> bool" where
  "truthy d \<longleftrightarrow> d \<noteq> None \<and> d \<noteq> Some []"

text \<open>The body of the loop over the path arguments.\<close>

definition import_path :: "env \<Rightarrow> string \<Rightarrow> event list \<times> error option" where
  "import_path env path =
     (let json_file_paths = get_file_paths env path
      in if json_file_paths = []
         then ([Print (Info_attempting path), Print (Error_no_json path)], None)
         else
           (case get_display_names env json_file_paths of
              Inl e \<Rightarrow> ([Print (Info_attempting path)], Some e)
            | Inr users \<Rightarrow>
                (let users_line = Print (if truthy users then Info_users_found else Warning_no_users)
                 in
                (case get_channel_names env json_file_paths of
                   Inl e \<Rightarrow> ([Print (Info_attempting path), users_line], Some e)
                 | Inr channels \<Rightarrow>
                     ([Print (Info_attempting path), users_line,
                       Print (if truthy channels then Info_channels_found else Warning_no_channels)]
                      @ process_files env users channels (sort json_file_paths)
                      @ [Print Info_complete], None)))))"

fun import_here :: "env \<Rightarrow> string list \<Rightarrow> event list \<times> error option" where
  "import_here env [] = ([], None)"
| "import_here env (path # paths) =
     (case import_path env path of
        (evs, Some e) \<Rightarrow> (evs, Some e)
      | (evs, None) \<Rightarrow> (case import_here env paths of (evs', r) \<Rightarrow> (evs @ evs', r)))"

subsection \<open>Observing a run\<close>

text \<open>The export files a run opened, in the order it opened them.\<close>

fun parsed :: "event \<Rightarrow> string option" where
  "parsed (Print (Info_parsing json_file)) = Some json_file"
| "parsed _ = None"

definition parsed_files :: "event list \<Rightarrow> string list" where
  "parsed_files evs = List.map_filter parsed evs"

text \<open>The texts a run sent to the destination channel, in the order it sent them.\<close>

fun sent :: "event \<Rightarrow> string option" where
  "sent (Send msg) = Some msg"
| "sent _ = None"

definition sends :: "event list \<Rightarrow> string list" where
  "sends evs = List.map_filter sent evs"

subsection \<open>A small export\<close>

text \<open>
  An export directory \<^verbatim>\<open>export/general\<close> with three message logs and a text file, and
  the two lookup tables in its parent directory. In \<^verbatim>\<open>a.json\<close> the second message is
  older than the first; \<^verbatim>\<open>b.json\<close> has a record without text and a record whose author
  is not in the user table; \<^verbatim>\<open>c.json\<close> has an attachment without \<^verbatim>\<open>url_private\<close>.
\<close>

definition alice :: message where
  "alice = \<lparr>msg_ts = Some ''1609459200'', msg_text = Some ''Hello <@U123>'',
     msg_user_profile = Some \<lparr>display_name = Some ''Alice'', real_name = Some []\<rparr>,
     msg_user = None, msg_files = None\<rparr>"

definition bob :: message where
  "bob = \<lparr>msg_ts = Some ''1500000000'', msg_text = Some ''see <#C1>'',
     msg_user_profile = None, msg_user = Some ''U123'', msg_files = None\<rparr>"

definition no_text :: message where
  "no_text = \<lparr>msg_ts = Some ''1609459200'', msg_text = None,
     msg_user_profile = None, msg_user = Some ''U123'', msg_files = None\<rparr>"

definition stranger :: message where
  "stranger = \<lparr>msg_ts = Some ''1609459200'', msg_text = Some ''hi'',
     msg_user_profile = None, msg_user = Some ''U999'', msg_files = None\<rparr>"

definition no_url :: message where
  "no_url = \<lparr>msg_ts = Some ''1609459200'', msg_text = Some ''report'',
     msg_user_profile = None, msg_user = Some ''U123'',
     msg_files = Some [\<lparr>url_private = None, file_name = Some ''r.pdf'',
       mimetype = Some ''application/pdf''\<rparr>]\<rparr>"

definition example_users :: "user_entry list" where
  "example_users =
     [\<lparr>user_id = Some ''U123'',
       user_entry_profile = Some \<lparr>display_name = Some [], real_name = Some ''Bob''\<rparr>\<rparr>,
      \<lparr>user_id = Some ''U456'',
       user_entry_profile = Some \<lparr>display_name = Some ''Carol'', real_name = Some ''C. C.''\<rparr>\<rparr>]"

definition example_env :: env where
  "example_env = \<lparr>
     isdir = (\<lambda>p. p = ''export'' \<or> p = ''export/general''),
     isfile = (\<lambda>p. p = ''export/users.json'' \<or> p = ''export/channels.json''
       \<or> p = ''export/general/a.json'' \<or> p = ''export/general/b.json''
       \<or> p = ''export/general/c.json'' \<or> p = ''export/general/notes.txt''),
     listdir = (\<lambda>p. if p = ''export/general'' then [''c.json'', ''a.json'', ''notes.txt'', ''b.json'']
       else if p = ''export'' then [''general'', ''users.json'', ''channels.json'']
       else []),
     load_users = (\<lambda>p. if p = ''export/users.json'' then Inr example_users else Inl OSError),
     load_channels = (\<lambda>p. if p = ''export/channels.json''
       then Inr [\<lparr>channel_id = Some ''C1'', channel_name = Some ''general''\<rparr>]
       else Inl OSError),
     load_export = (\<lambda>p. if p = ''export/general/a.json'' then Inr [alice, bob]
       else if p = ''export/general/b.json'' then Inr [no_text, stranger, alice]
       else if p = ''export/general/c.json'' then Inr [no_url, alice]
       else Inl OSError),
     strftime = (\<lambda>t. if t = ''1609459200'' then Inr ''01/01/2021 at 00:00:00''
       else if t = ''1500000000'' then Inr ''07/14/2017 at 02:40:00''
       else Inl ValueError),
     send_ok = (\<lambda>msg. msg \<noteq> [] \<and> length msg \<le> 2000),
     send_file_ok = (\<lambda>n data. True),
     http_get = (\<lambda>url. NetworkError)\<rparr>"

text \<open>The same export without its lookup tables.\<close>

definition example_env_no_tables :: env where
  "example_env_no_tables =
     example_env\<lparr>isfile := (\<lambda>p. p = ''export/general/a.json'' \<or> p = ''export/general/b.json''
       \<or> p = ''export/general/c.json'' \<or> p = ''export/general/notes.txt'')\<rparr>"

section \<open>Properties\<close>

subsection \<open>Strings\<close>

lemma contains_Nil: "contains [] s"
  by (cases s) auto

lemma contains_iff_sublist: "contains old s \<longleftrightarrow> sublist old s"
  by (induction s) (auto simp: sublist_Cons_right)

lemma replace_from_absent: "\<not> contains old s \<Longrightarrow> replace_from old new s = s"
  by (induction s) auto

lemma replace_absent: "\<not> contains old s \<Longrightarrow> replace s old new = s"
  using contains_Nil by (auto simp: replace_def replace_from_absent)

lemma fill_users_absent:
  "\<forall>(uid, name) \<in> set us. \<not> contains (''<@'' @ uid @ ''>'') t \<Longrightarrow> fill_users us t = t"
  unfolding fill_users_def by (induction us) (auto simp: replace_absent)

lemma fill_channels_absent:
  "\<forall>(cid, name) \<in> set cs. \<not> contains (''<#'' @ cid @ ''>'') t \<Longrightarrow> fill_channels cs t = t"
  unfolding fill_channels_def by (induction cs) (auto simp: replace_absent)

lemma length_strip_nl: "length (strip_nl s) \<le> length s"
proof -
  have "length (strip_nl s) \<le> length (dropWhile (\<lambda>c. c = CHR ''\<newline>'') s)"
    unfolding strip_nl_def by (metis length_dropWhile_le length_rev)
  also have "\<dots> \<le> length s"
    by (rule length_dropWhile_le)
  finally show ?thesis .
qed

lemma strip_nl_Cons_nl: "strip_nl (CHR ''\<newline>'' # s) = strip_nl s"
  by (simp add: strip_nl_def)

lemma strip_nl_clean:
  assumes "s \<noteq> []" and "hd s \<noteq> CHR ''\<newline>''" and "last s \<noteq> CHR ''\<newline>''"
  shows "strip_nl s = s"
proof -
  from assms(1,2) have front: "dropWhile (\<lambda>c. c = CHR ''\<newline>'') s = s"
    by (cases s) auto
  from assms(1) obtain ys y where s: "s = ys @ [y]"
    by (cases s rule: rev_cases) auto
  with assms(3) have "dropWhile (\<lambda>c. c = CHR ''\<newline>'') (rev s) = rev s"
    by simp
  with front show ?thesis
    by (simp add: strip_nl_def)
qed

lemma length_slice_to: "0 \<le> n \<Longrightarrow> int (length (slice_to s n)) \<le> n"
  by (simp add: slice_to_def)

subsection \<open>The transformer\<close>

text \<open>
  C2, as the code has it. The bound of the truncation law holds while the attachment
  block fits the budget: if the block \<open>files_msg\<close> built from the attachment URLs has
  at most 1940 characters, \<^verbatim>\<open>fill_references\<close> returns a text of at most
  \<open>1940 + length (nl @ files_msg)\<close> characters, and of at most 2000 characters.
\<close>

theorem truncation_law_within_budget:
  assumes "files_msg_loop [] files = Inr files_msg" and "length files_msg \<le> 1940"
  shows "\<exists>t. fill_references message (Some us) (Some cs) files = Inr t
           \<and> int (length t) \<le> 1940 + int (length (nl @ files_msg)) \<and> length t \<le> 2000"
proof -
  let ?limit = "MAX_MESSAGE_SIZE - int (length files_msg)"
  let ?body = "slice_to (fill_channels cs (fill_users us message)) ?limit"
  let ?t = "strip_nl (?body @ nl @ files_msg)"
  from assms(2) have limit: "0 \<le> ?limit"
    by (simp add: MAX_MESSAGE_SIZE_def)
  then have "int (length ?body) \<le> ?limit"
    by (rule length_slice_to)
  moreover have "length ?t \<le> length (?body @ nl @ files_msg)"
    by (rule length_strip_nl)
  ultimately have bound: "int (length ?t) \<le> 1941"
    by (simp add: MAX_MESSAGE_SIZE_def nl_def)
  have "fill_references message (Some us) (Some cs) files = Inr ?t"
    using assms(1) by (simp add: fill_references_def Let_def)
  with bound show ?thesis
    by (simp add: nl_def)
qed

theorem truncation_law_within_budget_witness:
  "files_msg_loop [] [Some ''https://files/a.txt''] = Inr (nl @ ''https://files/a.txt'')
   \<and> length (nl @ ''https://files/a.txt'') \<le> 1940
   \<and> (\<exists>t. fill_references ''Hello <@U123>'' (Some [(''U123'', ''Bob'')]) (Some [])
             [Some ''https://files/a.txt''] = Inr t
          \<and> int (length t) \<le> 1940 + int (length (nl @ nl @ ''https://files/a.txt''))
          \<and> length t \<le> 2000)"
  using truncation_law_within_budget
    [of "[Some ''https://files/a.txt'']" "nl @ ''https://files/a.txt''"
        "''Hello <@U123>''" "[(''U123'', ''Bob'')]" "[]"]
  by (simp add: nl_def)

text \<open>
  C2, as the specification states it, fails: with an empty body and one attachment URL
  of 2001 characters the text returned is the URL itself, longer than the transport's
  2000 characters.
\<close>

theorem truncation_law_counterexample:
  "fill_references [] (Some []) (Some []) [Some (replicate 2001 (CHR ''a''))]
     = Inr (replicate 2001 (CHR ''a''))
   \<and> \<not> length (replicate 2001 (CHR ''a'')) \<le> 2000"
  by (simp add: fill_references_def fill_users_def fill_channels_def nl_def slice_to_def
      MAX_MESSAGE_SIZE_def strip_nl_Cons_nl strip_nl_clean)

text \<open>
  C3 at a failing input. The body \<open>ab\<close> with one attachment URL of 1940 characters gives
  a block of 1941 characters and \<open>limit = -1\<close>; the slice \<^verbatim>\<open>message[:-1]\<close> keeps \<open>a\<close>,
  so the text returned still starts with a character of the body.
\<close>

theorem negative_limit_keeps_body:
  "fill_references ''ab'' (Some []) (Some []) [Some (replicate 1940 (CHR ''u''))]
     = Inr (''a'' @ nl @ nl @ replicate 1940 (CHR ''u''))"
  by (simp add: fill_references_def fill_users_def fill_channels_def nl_def slice_to_def
      MAX_MESSAGE_SIZE_def strip_nl_clean)

text \<open>
  C9. Substitution leaves already-substituted text alone: if no token \<open><@id>\<close> of the
  user table and no token \<open><#id>\<close> of the channel table occurs in a text, the two
  substitution loops return the text unchanged.
\<close>

theorem substitution_fixes_substituted_text:
  assumes "\<forall>(uid, name) \<in> set users. \<not> contains (''<@'' @ uid @ ''>'') t"
    and "\<forall>(cid, name) \<in> set channels. \<not> contains (''<#'' @ cid @ ''>'') t"
  shows "fill_channels channels (fill_users users t) = t"
  using assms by (simp add: fill_users_absent fill_channels_absent)

theorem substitution_fixes_substituted_text_witness:
  "\<not> contains ''<@U1>'' ''Hi @Bob in #dev''
   \<and> \<not> contains ''<#C1>'' ''Hi @Bob in #dev''
   \<and> fill_channels [(''C1'', ''dev'')] (fill_users [(''U1'', ''Bob'')] ''Hi @Bob in #dev'')
       = ''Hi @Bob in #dev''
   \<and> fill_channels [(''C1'', ''dev'')] (fill_users [(''U1'', ''Bob'')] ''Hi <@U1> in <#C1>'')
       = ''Hi @Bob in #dev''"
  using substitution_fixes_substituted_text
    [of "[(''U1'', ''Bob'')]" "''Hi @Bob in #dev''" "[(''C1'', ''dev'')]"]
  by (simp add: fill_users_def fill_channels_def replace_def)

subsection \<open>The orchestrator\<close>

lemma process_messages_append:
  "process_messages env users channels (xs @ ys) =
     (case process_messages env users channels xs of
        (evs, Some e) \<Rightarrow> (evs, Some e)
      | (evs, None) \<Rightarrow>
          (case process_messages env users channels ys of (evs', r) \<Rightarrow> (evs @ evs', r)))"
  by (induction xs) (auto split: prod.splits option.splits)

lemma files_msg_loop_None:
  "None \<in> set files \<Longrightarrow> files_msg_loop acc files = Inl TypeError"
  by (induction acc files rule: files_msg_loop.induct) auto

lemma parsed_files_append: "parsed_files (xs @ ys) = parsed_files xs @ parsed_files ys"
  by (simp add: parsed_files_def List.map_filter_def)

lemma parsed_files_Nil: "parsed_files [] = []"
  by (simp add: parsed_files_def map_filter_simps)

lemma parsed_files_Cons:
  "parsed_files (ev # evs) =
     (case parsed ev of None \<Rightarrow> parsed_files evs | Some p \<Rightarrow> p # parsed_files evs)"
  by (simp add: parsed_files_def map_filter_simps split: option.splits)

lemmas parsed_files_simps = parsed_files_append parsed_files_Nil parsed_files_Cons

lemma parsed_files_uploadd_file: "parsed_files (fst (uploadd_file env file_info)) = []"
  by (simp add: uploadd_file_def parsed_files_simps split: option.splits response.splits)

lemma parsed_files_upload_loop: "parsed_files (fst (upload_loop env file_infos)) = []"
proof (induction file_infos)
  case Nil
  show ?case by (simp add: parsed_files_simps)
next
  case (Cons file_info rest)
  with parsed_files_uploadd_file [of env file_info] show ?case
    by (auto simp: parsed_files_simps split: prod.splits option.splits)
qed

lemma parsed_files_process_message:
  "parsed_files (fst (process_message env users channels m)) = []"
proof -
  let ?file_infos = "case msg_files m of None \<Rightarrow> [] | Some fs \<Rightarrow> fs"
  obtain ups r where up: "upload_loop env ?file_infos = (ups, r)"
    by (cases "upload_loop env ?file_infos")
  with parsed_files_upload_loop [of env ?file_infos]
  have "parsed_files ups = []"
    by simp
  with up show ?thesis
    by (simp add: process_message_def Let_def parsed_files_simps split: sum.splits option.splits)
qed

lemma parsed_files_process_messages:
  "parsed_files (fst (process_messages env users channels ms)) = []"
proof (induction ms)
  case Nil
  show ?case by (simp add: parsed_files_simps)
next
  case (Cons m ms)
  with parsed_files_process_message [of env users channels m] show ?case
    by (auto simp: parsed_files_simps split: prod.splits option.splits)
qed

lemma parsed_files_process_file:
  "parsed_files (process_file env users channels json_file) = [json_file]"
proof (cases "load_export env json_file")
  case (Inl e)
  then show ?thesis
    by (simp add: process_file_def parsed_files_simps)
next
  case (Inr messages)
  obtain evs r where run: "process_messages env users channels messages = (evs, r)"
    by (cases "process_messages env users channels messages")
  with parsed_files_process_messages [of env users channels messages]
  have "parsed_files evs = []"
    by simp
  with Inr run show ?thesis
    by (simp add: process_file_def parsed_files_simps split: option.splits)
qed

lemma parsed_files_process_files:
  "parsed_files (process_files env users channels json_files) = json_files"
  by (induction json_files) (simp_all add: parsed_files_simps parsed_files_process_file)

lemma get_display_names_returns:
  "json_file_paths \<noteq> [] \<Longrightarrow> \<exists>users. get_display_names env json_file_paths = Inr users"
  by (cases json_file_paths) (simp_all add: get_display_names_def Let_def)

lemma get_channel_names_returns:
  "json_file_paths \<noteq> [] \<Longrightarrow> \<exists>channels. get_channel_names env json_file_paths = Inr channels"
  by (cases json_file_paths) (simp_all add: get_channel_names_def Let_def)

lemma import_path_cases:
  obtains (empty) "get_file_paths env path = []"
      and "import_path env path = ([Print (Info_attempting path), Print (Error_no_json path)], None)"
  | (files) users channels where "get_file_paths env path \<noteq> []"
      and "get_display_names env (get_file_paths env path) = Inr users"
      and "get_channel_names env (get_file_paths env path) = Inr channels"
      and "import_path env path =
        ([Print (Info_attempting path),
          Print (if truthy users then Info_users_found else Warning_no_users),
          Print (if truthy channels then Info_channels_found else Warning_no_channels)]
         @ process_files env users channels (sort (get_file_paths env path))
         @ [Print Info_complete], None)"
proof (cases "get_file_paths env path = []")
  case True
  then have "import_path env path = ([Print (Info_attempting path), Print (Error_no_json path)], None)"
    by (simp add: import_path_def)
  with True show ?thesis
    by (rule empty)
next
  case False
  from get_display_names_returns [OF False] obtain users
    where users: "get_display_names env (get_file_paths env path) = Inr users" ..
  from get_channel_names_returns [OF False] obtain channels
    where channels: "get_channel_names env (get_file_paths env path) = Inr channels" ..
  from False users channels have "import_path env path =
        ([Print (Info_attempting path),
          Print (if truthy users then Info_users_found else Warning_no_users),
          Print (if truthy channels then Info_channels_found else Warning_no_channels)]
         @ process_files env users channels (sort (get_file_paths env path))
         @ [Print Info_complete], None)"
    by (simp add: import_path_def Let_def)
  with False users channels show ?thesis
    by (rule files)
qed

lemma parsed_files_import_path:
  "parsed_files (fst (import_path env path)) = sort (get_file_paths env path)"
  by (cases env path rule: import_path_cases)
    (simp_all add: parsed_files_simps parsed_files_process_files)

lemma import_path_completes: "snd (import_path env path) = None"
  by (cases env path rule: import_path_cases) simp_all

lemma import_here_completes: "snd (import_here env paths) = None"
proof (induction paths)
  case Nil
  show ?case by simp
next
  case (Cons path paths)
  with import_path_completes [of env path] show ?case
    by (auto split: prod.splits option.splits)
qed

lemma events_prefix:
  "\<exists>k\<le>length ms.
      fst (process_messages env users channels ms)
        = concat (map (\<lambda>m. fst (process_message env users channels m)) (take k ms))
      \<and> (snd (process_messages env users channels ms) = None \<longrightarrow> k = length ms)"
proof (induction ms)
  case Nil
  show ?case by simp
next
  case (Cons m ms)
  let ?f = "\<lambda>m. fst (process_message env users channels m)"
  obtain evs r where m: "process_message env users channels m = (evs, r)"
    by (cases "process_message env users channels m")
  show ?case
  proof (cases r)
    case (Some e)
    have len: "Suc 0 \<le> length (m # ms)"
      by simp
    from m Some have evs: "fst (process_messages env users channels (m # ms))
        = concat (map ?f (take (Suc 0) (m # ms)))"
      by simp
    from m Some have all: "snd (process_messages env users channels (m # ms)) = None
        \<longrightarrow> Suc 0 = length (m # ms)"
      by simp
    show ?thesis
    proof (intro exI conjI)
      show "Suc 0 \<le> length (m # ms)" by (rule len)
      show "fst (process_messages env users channels (m # ms))
        = concat (map ?f (take (Suc 0) (m # ms)))" by (rule evs)
      show "snd (process_messages env users channels (m # ms)) = None
        \<longrightarrow> Suc 0 = length (m # ms)" by (rule all)
    qed
  next
    case None
    from Cons.IH obtain k where k: "k \<le> length ms"
      "fst (process_messages env users channels ms) = concat (map ?f (take k ms))"
      "snd (process_messages env users channels ms) = None \<longrightarrow> k = length ms"
      by (elim exE conjE)
    obtain evs' r' where ms: "process_messages env users channels ms = (evs', r')"
      by (cases "process_messages env users channels ms")
    from k(1) have len: "Suc k \<le> length (m # ms)"
      by simp
    from m None ms k(2) have evs: "fst (process_messages env users channels (m # ms))
        = concat (map ?f (take (Suc k) (m # ms)))"
      by simp
    from m None ms k(3)
    have all: "snd (process_messages env users channels (m # ms)) = None
        \<longrightarrow> Suc k = length (m # ms)"
      by simp
    show ?thesis
    proof (intro exI conjI)
      show "Suc k \<le> length (m # ms)" by (rule len)
      show "fst (process_messages env users channels (m # ms))
        = concat (map ?f (take (Suc k) (m # ms)))" by (rule evs)
      show "snd (process_messages env users channels (m # ms)) = None
        \<longrightarrow> Suc k = length (m # ms)" by (rule all)
    qed
  qed
qed

subsection \<open>Evaluating the small export\<close>

lemmas example_defs = example_env_def alice_def bob_def no_text_def stranger_def no_url_def
  example_users_def

lemmas run_defs = process_message_def has_keys_def username_of_def fill_references_def
  fill_users_def fill_channels_def replace_def strip_nl_def slice_to_def MAX_MESSAGE_SIZE_def
  nl_def process_file_def uploadd_file_def Let_def

lemmas path_defs = get_file_paths_def path_join_def dirname_def suffix_to_prefix
  get_display_names_def get_channel_names_def import_path_def truthy_def

lemma process_file_aborts:
  assumes "load_export env json_file = Inr (before @ m # rest)"
    and "process_messages env users channels before = (evs, None)"
    and "process_message env users channels m = ([], Some e)"
  shows "process_files env users channels (json_file # json_files)
      = Print (Info_parsing json_file) # evs @ Print (Error_exc e)
          # process_files env users channels json_files"
proof -
  from assms(2,3) have "process_messages env users channels (before @ m # rest) = (evs, Some e)"
    by (simp add: process_messages_append)
  with assms(1) show ?thesis
    by (simp add: process_file_def)
qed

lemma display_names_loop_append:
  "display_names_loop (xs @ ys) acc =
     (case display_names_loop xs acc of Inl e \<Rightarrow> Inl e | Inr acc' \<Rightarrow> display_names_loop ys acc')"
  by (induction xs arbitrary: acc) (simp_all split: option.splits)

lemma display_names_loop_keeps:
  "display_names_loop later acc = Inr users \<Longrightarrow> \<forall>e' \<in> set later. user_id e' \<noteq> Some uid
    \<Longrightarrow> map_of users uid = map_of acc uid"
proof (induction later arbitrary: acc)
  case Nil
  then show ?case by simp
next
  case (Cons e later)
  from Cons.prems(1) obtain uid' name where step: "user_id e = Some uid'"
    "display_names_loop later (AList.update uid' name acc) = Inr users"
    by (auto split: option.splits)
  from Cons.prems(2) step(1) have "uid' \<noteq> uid"
    by auto
  moreover from Cons.prems(2) have "\<forall>e' \<in> set later. user_id e' \<noteq> Some uid"
    by simp
  from Cons.IH [OF step(2) this] have "map_of users uid = map_of (AList.update uid' name acc) uid" .
  ultimately show ?case
    by (simp add: update_conv')
qed

subsection \<open>The claims about the orchestrator and the resolver\<close>



text \<open>
  C4. A message that passes the key test, has no inline profile and names a user that
  the user table does not contain raises \<^verbatim>\<open>KeyError\<close> before anything is sent. The
  handler of the file logs it: the file contributes the events of the messages before that
  one and the error line, nothing of the messages after it, and the next files follow.
\<close>

theorem unknown_author_aborts_file:
  assumes "msg_ts m \<noteq> None" and "msg_text m \<noteq> None"
    and "msg_user_profile m = None" and "msg_user m = Some u" and "map_of users u = None"
    and "load_export env json_file = Inr (before @ m # rest)"
    and "process_messages env (Some users) channels before = (evs, None)"
  shows "process_message env (Some users) channels m = ([], Some KeyError)
    \<and> process_files env (Some users) channels (json_file # json_files)
        = Print (Info_parsing json_file) # evs @ Print (Error_exc KeyError)
            # process_files env (Some users) channels json_files"
proof -
  from assms(1-5) have "process_message env (Some users) channels m = ([], Some KeyError)"
    by (simp add: process_message_def has_keys_def username_of_def)
  with process_file_aborts [OF assms(6,7) this] show ?thesis
    by simp
qed

theorem unknown_author_aborts_file_witness:
  "msg_user_profile stranger = None \<and> msg_user stranger = Some ''U999''
   \<and> map_of [(''U123'', ''Bob''), (''U456'', ''Carol'')] ''U999'' = None
   \<and> load_export example_env ''export/general/b.json'' = Inr ([no_text] @ stranger # [alice])
   \<and> process_files example_env (Some [(''U123'', ''Bob''), (''U456'', ''Carol'')])
         (Some [(''C1'', ''general'')]) [''export/general/b.json'', ''export/general/a.json'']
       = [Print (Info_parsing ''export/general/b.json''), Print Warning_missing,
          Print (Error_exc KeyError),
          Print (Info_parsing ''export/general/a.json''),
          Send (''**Alice** *(01/01/2021 at 00:00:00)*'' @ nl @ ''Hello @Bob''),
          Print (Info_imported (''**Alice** *(01/01/2021 at 00:00:00)*'' @ nl @ ''Hello @Bob'')),
          Sleep,
          Send (''**Bob** *(07/14/2017 at 02:40:00)*'' @ nl @ ''see #general''),
          Print (Info_imported (''**Bob** *(07/14/2017 at 02:40:00)*'' @ nl @ ''see #general'')),
          Sleep]"
  using unknown_author_aborts_file
    [of stranger "''U999''" "[(''U123'', ''Bob''), (''U456'', ''Carol'')]" example_env
        "''export/general/b.json''" "[no_text]" "[alice]" "Some [(''C1'', ''general'')]"
        "[Print Warning_missing]" "[''export/general/a.json'']"]
  by (simp add: example_defs run_defs)

text \<open>
  C10. A message that is valid otherwise and has an attachment descriptor without
  \<^verbatim>\<open>url_private\<close> makes \<^verbatim>\<open>fill_references\<close> raise \<^verbatim>\<open>TypeError\<close> in the join; the
  message is not sent, the rest of the file is skipped, and the next files follow.
\<close>

theorem missing_url_private_aborts_file:
  assumes "msg_ts m = Some ts" and "msg_text m = Some raw"
    and "username_of (Some users) m = Inr username"
    and "strftime env ts = Inr timestamp"
    and "msg_files m = Some file_infos"
    and "file_info \<in> set file_infos" and "url_private file_info = None"
    and "load_export env json_file = Inr (before @ m # rest)"
    and "process_messages env (Some users) (Some channels) before = (evs, None)"
  shows "fill_references raw (Some users) (Some channels) (map url_private file_infos)
        = Inl TypeError
    \<and> process_message env (Some users) (Some channels) m = ([], Some TypeError)
    \<and> process_files env (Some users) (Some channels) (json_file # json_files)
        = Print (Info_parsing json_file) # evs @ Print (Error_exc TypeError)
            # process_files env (Some users) (Some channels) json_files"
proof -
  from assms(6,7) have "None \<in> set (map url_private file_infos)"
    by (metis image_eqI set_map)
  then have join: "files_msg_loop [] (map url_private file_infos) = Inl TypeError"
    by (rule files_msg_loop_None)
  then have fill: "fill_references raw (Some users) (Some channels) (map url_private file_infos)
        = Inl TypeError"
    by (simp add: fill_references_def)
  from assms(3) have "msg_user_profile m \<noteq> None \<or> msg_user m \<noteq> None"
    by (auto simp: username_of_def split: option.splits)
  with assms(1,2) have "has_keys m"
    by (simp add: has_keys_def)
  with assms(1-5) fill
  have one: "process_message env (Some users) (Some channels) m = ([], Some TypeError)"
    by (simp add: process_message_def)
  with fill process_file_aborts [OF assms(8,9) one] show ?thesis
    by simp
qed

theorem missing_url_private_aborts_file_witness:
  "msg_files no_url = Some [\<lparr>url_private = None, file_name = Some ''r.pdf'',
       mimetype = Some ''application/pdf''\<rparr>]
   \<and> username_of (Some [(''U123'', ''Bob'')]) no_url = Inr ''Bob''
   \<and> load_export example_env ''export/general/c.json'' = Inr ([] @ no_url # [alice])
   \<and> process_message example_env (Some [(''U123'', ''Bob'')]) (Some []) no_url
       = ([], Some TypeError)
   \<and> process_files example_env (Some [(''U123'', ''Bob'')]) (Some [])
         [''export/general/c.json'', ''export/general/nothing.json'']
       = [Print (Info_parsing ''export/general/c.json''), Print (Error_exc TypeError),
          Print (Info_parsing ''export/general/nothing.json''), Print (Error_exc OSError)]"
  using missing_url_private_aborts_file
    [of no_url "''1609459200''" "''report''" "[(''U123'', ''Bob'')]" "''Bob''" example_env
        "''01/01/2021 at 00:00:00''"
        "[\<lparr>url_private = None, file_name = Some ''r.pdf'', mimetype = Some ''application/pdf''\<rparr>]"
        "\<lparr>url_private = None, file_name = Some ''r.pdf'', mimetype = Some ''application/pdf''\<rparr>"
        "''export/general/c.json''" "[]" "[alice]" "[]" "[]" "[''export/general/nothing.json'']"]
  by (simp add: example_defs run_defs)

text \<open>
  C8. An identity whose \<^verbatim>\<open>display_name\<close> is the empty string resolves to its
  \<^verbatim>\<open>real_name\<close>: in the table built from \<^verbatim>\<open>users.json\<close> (found beside the first
  export file or one directory up), for an entry that no later entry of the same
  identifier overwrites, and for the inline profile of a message.
\<close>

theorem empty_display_name_falls_back_to_real_name:
  assumes "display_name p = Some []" and "real_name p = Some rn"
    and "user_id e = Some uid" and "user_entry_profile e = Some p"
    and "\<forall>e' \<in> set later. user_id e' \<noteq> Some uid"
    and "file = path_join (dirname first) ''users.json'' \<and> isfile env file
       \<or> file = path_join (dirname (dirname first)) ''users.json'' \<and> isfile env file
          \<and> \<not> isfile env (path_join (dirname first) ''users.json'')"
    and "load_users env file = Inr (earlier @ e # later)"
    and "display_names_loop (earlier @ e # later) [] = Inr users"
  shows "get_display_names env (first # others) = Inr (Some users)
    \<and> map_of users uid = Some rn
    \<and> (msg_user_profile m = Some p \<longrightarrow> username_of any_users m = Inr rn)"
proof -
  from assms(6,7,8) have table: "get_display_names env (first # others) = Inr (Some users)"
    by (auto simp: get_display_names_def Let_def)
  from assms(8) obtain acc where acc: "display_names_loop earlier [] = Inr acc"
    and rest: "display_names_loop (e # later) acc = Inr users"
    by (auto simp: display_names_loop_append split: sum.splits)
  from rest assms(1-4) have "display_names_loop later (AList.update uid rn acc) = Inr users"
    by simp
  from display_names_loop_keeps [OF this assms(5)] have entry: "map_of users uid = Some rn"
    by (simp add: update_conv')
  from assms(1,2) have "msg_user_profile m = Some p \<longrightarrow> username_of any_users m = Inr rn"
    by (simp add: username_of_def)
  with table entry show ?thesis
    by simp
qed

theorem empty_display_name_falls_back_to_real_name_witness:
  "load_users example_env ''export/users.json'' = Inr example_users
   \<and> get_display_names example_env [''export/general/c.json'', ''export/general/a.json'']
       = Inr (Some [(''U123'', ''Bob''), (''U456'', ''Carol'')])
   \<and> map_of [(''U123'', ''Bob''), (''U456'', ''Carol'')] ''U123'' = Some ''Bob''
   \<and> username_of None (alice\<lparr>msg_user_profile :=
         Some \<lparr>display_name = Some [], real_name = Some ''Bob''\<rparr>\<rparr>) = Inr ''Bob''"
  using empty_display_name_falls_back_to_real_name
    [of "\<lparr>display_name = Some [], real_name = Some ''Bob''\<rparr>" "''Bob''"
        "\<lparr>user_id = Some ''U123'',
          user_entry_profile = Some \<lparr>display_name = Some [], real_name = Some ''Bob''\<rparr>\<rparr>"
        "''U123''"
        "[\<lparr>user_id = Some ''U456'',
           user_entry_profile = Some \<lparr>display_name = Some ''Carol'', real_name = Some ''C. C.''\<rparr>\<rparr>]"
        "''export/users.json''" "''export/general/c.json''" example_env "[]"
        "[(''U123'', ''Bob''), (''U456'', ''Carol'')]" "[''export/general/a.json'']"
        "alice\<lparr>msg_user_profile := Some \<lparr>display_name = Some [], real_name = Some ''Bob''\<rparr>\<rparr>"
        None]
  by (simp add: example_defs path_join_def dirname_def suffix_to_prefix)

subsection \<open>The claims about the locator and the order of a run\<close>

lemma example_files:
  "get_file_paths example_env ''export/general''
       = [''export/general/c.json'', ''export/general/a.json'', ''export/general/b.json'']"
  by (simp add: example_env_def path_defs)

lemma example_sorted:
  "sort [''export/general/c.json'', ''export/general/a.json'', ''export/general/b.json'']
     = [''export/general/a.json'', ''export/general/b.json'', ''export/general/c.json'']"
  by simp

text \<open>
  C6, as the code has it. The locator decides by the name alone. For a directory it
  returns the joined paths of the entries that \<^verbatim>\<open>os.listdir\<close> gives, files and
  directories alike, whose names end in \<^verbatim>\<open>.json\<close>; for any other path whose string
  ends in \<^verbatim>\<open>.json\<close>, whether or not something exists there, the list of that path
  alone; for every other path the empty list.
\<close>

theorem get_file_paths_by_name:
  "(isdir env p \<longrightarrow>
      set (get_file_paths env p)
        = {path_join p f |f. f \<in> set (listdir env p) \<and> suffix ''.json'' f})
   \<and> (\<not> isdir env p \<and> suffix ''.json'' p \<longrightarrow> get_file_paths env p = [p])
   \<and> (\<not> isdir env p \<and> \<not> suffix ''.json'' p \<longrightarrow> get_file_paths env p = [])"
  by (auto simp: get_file_paths_def)

theorem get_file_paths_by_name_witness:
  "isdir example_env ''export/general''
   \<and> set (get_file_paths example_env ''export/general'')
       = {''export/general/a.json'', ''export/general/b.json'', ''export/general/c.json''}
   \<and> get_file_paths example_env ''export/general/a.json'' = [''export/general/a.json'']
   \<and> get_file_paths example_env ''export/general/notes.txt'' = []"
proof -
  have dir: "isdir example_env ''export/general''"
    and a: "\<not> isdir example_env ''export/general/a.json'' \<and> suffix ''.json'' ''export/general/a.json''"
    and other: "\<not> isdir example_env ''export/general/notes.txt''
      \<and> \<not> suffix ''.json'' ''export/general/notes.txt''"
    by (simp_all add: example_env_def suffix_to_prefix)
  have "set (get_file_paths example_env ''export/general'')
       = {''export/general/a.json'', ''export/general/b.json'', ''export/general/c.json''}"
    unfolding example_files by auto
  with dir a other get_file_paths_by_name [of example_env "''export/general/a.json''"]
    get_file_paths_by_name [of example_env "''export/general/notes.txt''"]
  show ?thesis
    by blast
qed

text \<open>
  C6, as the specification states it, fails: a path that ends in \<^verbatim>\<open>.json\<close> and names
  neither a file nor a directory is returned, where the claim has the empty result.
\<close>

theorem get_file_paths_counterexample:
  "\<not> isdir example_env ''export/nowhere.json''
   \<and> \<not> isfile example_env ''export/nowhere.json''
   \<and> get_file_paths example_env ''export/nowhere.json'' = [''export/nowhere.json'']"
  by (simp add: example_env_def path_defs)

lemma sends_append: "sends (xs @ ys) = sends xs @ sends ys"
  by (simp add: sends_def List.map_filter_def)

lemma sends_Nil: "sends [] = []"
  by (simp add: sends_def map_filter_simps)

lemma sends_Cons:
  "sends (ev # evs) = (case sent ev of None \<Rightarrow> sends evs | Some msg \<Rightarrow> msg # sends evs)"
  by (simp add: sends_def map_filter_simps split: option.splits)

lemma sends_concat: "sends (concat xss) = concat (map sends xss)"
  by (induction xss) (simp_all add: sends_Nil sends_append)

lemma process_files_concat:
  "process_files env users channels json_files
     = concat (map (process_file env users channels) json_files)"
  by (induction json_files) simp_all

lemma process_file_events:
  "load_export env json_file = Inr ms \<Longrightarrow>
   process_file env users channels json_file
     = Print (Info_parsing json_file) # fst (process_messages env users channels ms)
         @ (case snd (process_messages env users channels ms) of
              None \<Rightarrow> [] | Some e \<Rightarrow> [Print (Error_exc e)])"
  by (cases "process_messages env users channels ms")
    (simp add: process_file_def split: option.splits)

lemma process_file_prefix:
  assumes "load_export env json_file = Inr ms"
  shows "\<exists>k\<le>length ms.
      process_file env users channels json_file
        = Print (Info_parsing json_file)
            # concat (map (\<lambda>m. fst (process_message env users channels m)) (take k ms))
            @ (case snd (process_messages env users channels ms) of
                 None \<Rightarrow> [] | Some e \<Rightarrow> [Print (Error_exc e)])
      \<and> (snd (process_messages env users channels ms) = None \<longrightarrow> k = length ms)"
proof -
  from events_prefix [of ms env users channels] obtain k where k: "k \<le> length ms"
    "fst (process_messages env users channels ms)
       = concat (map (\<lambda>m. fst (process_message env users channels m)) (take k ms))"
    "snd (process_messages env users channels ms) = None \<longrightarrow> k = length ms"
    by (elim exE conjE)
  from process_file_events [OF assms, of users channels] k(2)
  have "process_file env users channels json_file
        = Print (Info_parsing json_file)
            # concat (map (\<lambda>m. fst (process_message env users channels m)) (take k ms))
            @ (case snd (process_messages env users channels ms) of
                 None \<Rightarrow> [] | Some e \<Rightarrow> [Print (Error_exc e)])"
    by (simp only:)
  with k(1,3) show ?thesis
    by (intro exI conjI)
qed

lemma process_file_sends:
  assumes "load_export env json_file = Inr ms"
    and "snd (process_messages env users channels ms) = None"
  shows "sends (process_file env users channels json_file)
      = concat (map (\<lambda>m. sends (fst (process_message env users channels m))) ms)"
proof -
  from process_file_prefix [OF assms(1), of users channels] assms(2)
  obtain k where "k = length ms"
    and "process_file env users channels json_file
        = Print (Info_parsing json_file)
            # concat (map (\<lambda>m. fst (process_message env users channels m)) (take k ms))
            @ (case snd (process_messages env users channels ms) of
                 None \<Rightarrow> [] | Some e \<Rightarrow> [Print (Error_exc e)])"
    by (elim exE conjE) simp
  with assms(2) have "process_file env users channels json_file
        = Print (Info_parsing json_file)
            # concat (map (\<lambda>m. fst (process_message env users channels m)) ms)"
    by simp
  then show ?thesis
    by (simp add: sends_Cons sends_concat comp_def)
qed


lemma process_message_sent:
  assumes "has_keys m" and "snd (process_message env users channels m) = None"
  shows "\<exists>username ts timestamp raw body ups.
      username_of users m = Inr username
      \<and> msg_ts m = Some ts \<and> strftime env ts = Inr timestamp
      \<and> msg_text m = Some raw
      \<and> fill_references raw users channels
            (map url_private (case msg_files m of None \<Rightarrow> [] | Some fs \<Rightarrow> fs)) = Inr body
      \<and> upload_loop env (case msg_files m of None \<Rightarrow> [] | Some fs \<Rightarrow> fs) = (ups, None)
      \<and> fst (process_message env users channels m)
          = Send (''**'' @ username @ ''** *('' @ timestamp @ '')*'' @ nl @ body) # ups
              @ [Print (Info_imported
                   (''**'' @ username @ ''** *('' @ timestamp @ '')*'' @ nl @ body)), Sleep]"
proof -
  let ?fis = "case msg_files m of None \<Rightarrow> [] | Some fs \<Rightarrow> fs"
  note ok = assms(2)
  note hk = assms(1)
  from ok hk obtain username where u: "username_of users m = Inr username"
    by (cases "username_of users m") (simp_all add: process_message_def)
  from hk obtain ts where ts: "msg_ts m = Some ts"
    by (auto simp: has_keys_def)
  from ok hk u ts obtain timestamp where st: "strftime env ts = Inr timestamp"
    by (cases "strftime env ts") (simp_all add: process_message_def)
  from hk obtain raw where raw: "msg_text m = Some raw"
    by (auto simp: has_keys_def)
  from ok hk u ts st raw obtain body
    where fill: "fill_references raw users channels (map url_private ?fis) = Inr body"
    by (cases "fill_references raw users channels (map url_private ?fis)")
      (simp_all add: process_message_def Let_def)
  let ?msg = "''**'' @ username @ ''** *('' @ timestamp @ '')*'' @ nl @ body"
  from ok hk u ts st raw fill have send: "send_ok env ?msg"
    by (cases "send_ok env ?msg") (simp_all add: process_message_def Let_def)
  obtain ups r where up: "upload_loop env ?fis = (ups, r)"
    by (cases "upload_loop env ?fis")
  from ok hk u ts st raw fill send up have r: "r = None"
    by (cases r) (simp_all add: process_message_def Let_def)
  from hk u ts st raw fill send up r
  have "fst (process_message env users channels m)
      = Send ?msg # ups @ [Print (Info_imported ?msg), Sleep]"
    by (simp add: process_message_def Let_def)
  with u ts st raw fill up r show ?thesis
    by blast
qed

lemma import_path_events:
  assumes "get_file_paths env path \<noteq> []"
  shows "\<exists>users channels.
      get_display_names env (get_file_paths env path) = Inr users
      \<and> get_channel_names env (get_file_paths env path) = Inr channels
      \<and> fst (import_path env path)
          = [Print (Info_attempting path),
             Print (if truthy users then Info_users_found else Warning_no_users),
             Print (if truthy channels then Info_channels_found else Warning_no_channels)]
            @ concat (map (process_file env users channels) (sort (get_file_paths env path)))
            @ [Print Info_complete]"
proof (cases env path rule: import_path_cases)
  case empty
  with assms show ?thesis
    by simp
next
  case (files users channels)
  from files(4) have "fst (import_path env path)
          = [Print (Info_attempting path),
             Print (if truthy users then Info_users_found else Warning_no_users),
             Print (if truthy channels then Info_channels_found else Warning_no_channels)]
            @ concat (map (process_file env users channels) (sort (get_file_paths env path)))
            @ [Print Info_complete]"
    by (simp add: process_files_concat)
  with files(2,3) show ?thesis
    by (intro exI conjI)
qed


text \<open>
  C5. The sends of a file follow the order of its array. The events of an export file are
  the line that announces it, then the events of its messages, one message after the other
  in the order of the array (those of the first \<open>k\<close> messages, and of all of them when no
  exception ends the file), then the error line if there was one; so the texts sent for
  a file that is processed to its end are those of its first message, then those of its
  second, and so on. A valid message that is processed sends its own composed text first.
  No step reads a timestamp but \<open>strftime\<close>, which formats it. The events of a path
  argument are those of its export files taken in the sorted order of their paths.
\<close>

theorem sends_in_array_order_files_in_sorted_order:
  "(load_export env json_file = Inr ms \<longrightarrow>
      (\<exists>k\<le>length ms.
         process_file env users channels json_file
           = Print (Info_parsing json_file)
               # concat (map (\<lambda>m. fst (process_message env users channels m)) (take k ms))
               @ (case snd (process_messages env users channels ms) of
                    None \<Rightarrow> [] | Some e \<Rightarrow> [Print (Error_exc e)])
         \<and> (snd (process_messages env users channels ms) = None \<longrightarrow> k = length ms)))
   \<and> (load_export env json_file = Inr ms
        \<and> snd (process_messages env users channels ms) = None \<longrightarrow>
      sends (process_file env users channels json_file)
        = concat (map (\<lambda>m. sends (fst (process_message env users channels m))) ms))
   \<and> (has_keys m \<and> snd (process_message env users channels m) = None \<longrightarrow>
      (\<exists>username ts timestamp raw body ups.
         username_of users m = Inr username
         \<and> msg_ts m = Some ts \<and> strftime env ts = Inr timestamp
         \<and> msg_text m = Some raw
         \<and> fill_references raw users channels
               (map url_private (case msg_files m of None \<Rightarrow> [] | Some fs \<Rightarrow> fs)) = Inr body
         \<and> upload_loop env (case msg_files m of None \<Rightarrow> [] | Some fs \<Rightarrow> fs) = (ups, None)
         \<and> fst (process_message env users channels m)
             = Send (''**'' @ username @ ''** *('' @ timestamp @ '')*'' @ nl @ body) # ups
                 @ [Print (Info_imported
                      (''**'' @ username @ ''** *('' @ timestamp @ '')*'' @ nl @ body)), Sleep]))
   \<and> (get_file_paths env path \<noteq> [] \<longrightarrow>
      (\<exists>found_users found_channels.
         get_display_names env (get_file_paths env path) = Inr found_users
         \<and> get_channel_names env (get_file_paths env path) = Inr found_channels
         \<and> fst (import_path env path)
             = [Print (Info_attempting path),
                Print (if truthy found_users then Info_users_found else Warning_no_users),
                Print (if truthy found_channels then Info_channels_found
                       else Warning_no_channels)]
               @ concat (map (process_file env found_users found_channels)
                   (sort (get_file_paths env path)))
               @ [Print Info_complete]))
   \<and> parsed_files (fst (import_path env path)) = sort (get_file_paths env path)"
proof (intro conjI impI)
  assume "load_export env json_file = Inr ms"
  then show "\<exists>k\<le>length ms.
         process_file env users channels json_file
           = Print (Info_parsing json_file)
               # concat (map (\<lambda>m. fst (process_message env users channels m)) (take k ms))
               @ (case snd (process_messages env users channels ms) of
                    None \<Rightarrow> [] | Some e \<Rightarrow> [Print (Error_exc e)])
         \<and> (snd (process_messages env users channels ms) = None \<longrightarrow> k = length ms)"
    by (rule process_file_prefix)
next
  assume "load_export env json_file = Inr ms
        \<and> snd (process_messages env users channels ms) = None"
  then show "sends (process_file env users channels json_file)
        = concat (map (\<lambda>m. sends (fst (process_message env users channels m))) ms)"
    by (elim conjE) (rule process_file_sends)
next
  assume "has_keys m \<and> snd (process_message env users channels m) = None"
  then show "\<exists>username ts timestamp raw body ups.
         username_of users m = Inr username
         \<and> msg_ts m = Some ts \<and> strftime env ts = Inr timestamp
         \<and> msg_text m = Some raw
         \<and> fill_references raw users channels
               (map url_private (case msg_files m of None \<Rightarrow> [] | Some fs \<Rightarrow> fs)) = Inr body
         \<and> upload_loop env (case msg_files m of None \<Rightarrow> [] | Some fs \<Rightarrow> fs) = (ups, None)
         \<and> fst (process_message env users channels m)
             = Send (''**'' @ username @ ''** *('' @ timestamp @ '')*'' @ nl @ body) # ups
                 @ [Print (Info_imported
                      (''**'' @ username @ ''** *('' @ timestamp @ '')*'' @ nl @ body)), Sleep]"
    by (elim conjE) (rule process_message_sent)
next
  assume "get_file_paths env path \<noteq> []"
  then show "\<exists>found_users found_channels.
         get_display_names env (get_file_paths env path) = Inr found_users
         \<and> get_channel_names env (get_file_paths env path) = Inr found_channels
         \<and> fst (import_path env path)
             = [Print (Info_attempting path),
                Print (if truthy found_users then Info_users_found else Warning_no_users),
                Print (if truthy found_channels then Info_channels_found
                       else Warning_no_channels)]
               @ concat (map (process_file env found_users found_channels)
                   (sort (get_file_paths env path)))
               @ [Print Info_complete]"
    by (rule import_path_events)
next
  show "parsed_files (fst (import_path env path)) = sort (get_file_paths env path)"
    by (rule parsed_files_import_path)
qed


theorem sends_in_array_order_files_in_sorted_order_witness:
  "load_export example_env ''export/general/a.json'' = Inr [alice, bob]
   \<and> msg_ts alice = Some ''1609459200'' \<and> msg_ts bob = Some ''1500000000''
   \<and> sends (process_file example_env (Some [(''U123'', ''Bob''), (''U456'', ''Carol'')])
         (Some [(''C1'', ''general'')]) ''export/general/a.json'')
       = [''**Alice** *(01/01/2021 at 00:00:00)*'' @ nl @ ''Hello @Bob'',
          ''**Bob** *(07/14/2017 at 02:40:00)*'' @ nl @ ''see #general'']
   \<and> get_file_paths example_env ''export/general''
       = [''export/general/c.json'', ''export/general/a.json'', ''export/general/b.json'']
   \<and> parsed_files (fst (import_path example_env ''export/general''))
       = [''export/general/a.json'', ''export/general/b.json'', ''export/general/c.json'']
   \<and> sends (fst (import_path example_env ''export/general''))
       = [''**Alice** *(01/01/2021 at 00:00:00)*'' @ nl @ ''Hello @Bob'',
          ''**Bob** *(07/14/2017 at 02:40:00)*'' @ nl @ ''see #general'']"
proof -
  let ?users = "Some [(''U123'', ''Bob''), (''U456'', ''Carol'')]"
  let ?channels = "Some [(''C1'', ''general'')]"
  let ?alice = "''**Alice** *(01/01/2021 at 00:00:00)*'' @ nl @ ''Hello @Bob''"
  let ?bob = "''**Bob** *(07/14/2017 at 02:40:00)*'' @ nl @ ''see #general''"
  note law = sends_in_array_order_files_in_sorted_order
    [where env = example_env and json_file = "''export/general/a.json''"
       and ms = "[alice, bob]" and users = ?users and channels = ?channels
       and m = alice and path = "''export/general''"]
  have a: "load_export example_env ''export/general/a.json'' = Inr [alice, bob]"
    by (simp add: example_env_def)
  have one: "process_message example_env ?users ?channels alice
      = ([Send ?alice, Print (Info_imported ?alice), Sleep], None)"
    by (simp add: example_defs run_defs)
  have two: "process_message example_env ?users ?channels bob
      = ([Send ?bob, Print (Info_imported ?bob), Sleep], None)"
    by (simp add: example_defs run_defs)
  from one two have "snd (process_messages example_env ?users ?channels [alice, bob]) = None"
    by simp
  with a law have "sends (process_file example_env ?users ?channels ''export/general/a.json'')
      = concat (map (\<lambda>m. sends (fst (process_message example_env ?users ?channels m)))
          [alice, bob])"
    by blast
  with one two have file_a: "sends (process_file example_env ?users ?channels
      ''export/general/a.json'') = [?alice, ?bob]"
    by (simp add: sends_Cons sends_Nil)
  from law have order: "parsed_files (fst (import_path example_env ''export/general''))
       = [''export/general/a.json'', ''export/general/b.json'', ''export/general/c.json'']"
    by (simp only: example_files example_sorted)
  have found: "get_display_names example_env (get_file_paths example_env ''export/general'')
        = Inr ?users"
      "get_channel_names example_env (get_file_paths example_env ''export/general'')
        = Inr ?channels"
    unfolding example_files
    by (simp_all add: example_env_def example_users_def get_display_names_def
        get_channel_names_def path_join_def dirname_def suffix_to_prefix)
  have file_b: "sends (process_file example_env ?users ?channels ''export/general/b.json'') = []"
    by (simp add: example_defs run_defs sends_Cons sends_Nil)
  have file_c: "sends (process_file example_env ?users ?channels ''export/general/c.json'') = []"
    by (simp add: example_defs run_defs sends_Cons sends_Nil)
  from law found have "fst (import_path example_env ''export/general'')
      = [Print (Info_attempting ''export/general''),
         Print (if truthy ?users then Info_users_found else Warning_no_users),
         Print (if truthy ?channels then Info_channels_found else Warning_no_channels)]
        @ concat (map (process_file example_env ?users ?channels)
            [''export/general/a.json'', ''export/general/b.json'', ''export/general/c.json''])
        @ [Print Info_complete]"
    by (simp add: example_files example_sorted)
  with file_a file_b file_c
  have run: "sends (fst (import_path example_env ''export/general'')) = [?alice, ?bob]"
    by (simp add: sends_append sends_Cons sends_Nil)
  have "msg_ts alice = Some ''1609459200''" and "msg_ts bob = Some ''1500000000''"
    by (simp_all add: alice_def bob_def)
  with a file_a example_files order run show ?thesis
    by (intro conjI)
qed

text \<open>
  C1 at a failing input. The export has no \<^verbatim>\<open>users.json\<close> and no
  \<^verbatim>\<open>channels.json\<close>, so both tables are \<open>None\<close>; the first message of
  \<^verbatim>\<open>a.json\<close> is valid and carries its author inline. \<^verbatim>\<open>fill_references\<close> calls
  \<^verbatim>\<open>users.items()\<close> on \<open>None\<close>, the \<^verbatim>\<open>AttributeError\<close> ends the file, and
  nothing is sent.
\<close>

theorem missing_tables_abort_every_file:
  "get_display_names example_env_no_tables [''export/general/a.json''] = Inr None
   \<and> get_channel_names example_env_no_tables [''export/general/a.json''] = Inr None
   \<and> load_export example_env_no_tables ''export/general/a.json'' = Inr [alice, bob]
   \<and> import_here example_env_no_tables [''export/general/a.json'']
       = ([Print (Info_attempting ''export/general/a.json''),
           Print Warning_no_users, Print Warning_no_channels,
           Print (Info_parsing ''export/general/a.json''),
           Print (Error_exc AttributeError),
           Print Info_complete], None)"
proof -
  have paths: "get_file_paths example_env_no_tables ''export/general/a.json''
      = [''export/general/a.json'']"
    by (simp add: example_env_no_tables_def example_env_def get_file_paths_def suffix_to_prefix)
  have users: "get_display_names example_env_no_tables [''export/general/a.json''] = Inr None"
    by (simp add: example_env_no_tables_def example_env_def get_display_names_def
        path_join_def dirname_def suffix_to_prefix)
  have channels: "get_channel_names example_env_no_tables [''export/general/a.json''] = Inr None"
    by (simp add: example_env_no_tables_def example_env_def get_channel_names_def
        path_join_def dirname_def suffix_to_prefix)
  have export: "load_export example_env_no_tables ''export/general/a.json'' = Inr [alice, bob]"
    by (simp add: example_env_no_tables_def example_env_def)
  have "process_message example_env_no_tables None None alice = ([], Some AttributeError)"
    by (simp add: example_env_no_tables_def example_env_def alice_def process_message_def
        has_keys_def username_of_def fill_references_def)
  with export have one_file: "process_file example_env_no_tables None None ''export/general/a.json''
      = [Print (Info_parsing ''export/general/a.json''), Print (Error_exc AttributeError)]"
    by (simp add: process_file_def)
  from paths users channels one_file
  have "import_path example_env_no_tables ''export/general/a.json''
      = ([Print (Info_attempting ''export/general/a.json''),
           Print Warning_no_users, Print Warning_no_channels,
           Print (Info_parsing ''export/general/a.json''),
           Print (Error_exc AttributeError),
           Print Info_complete], None)"
    by (simp add: import_path_def truthy_def)
  with users channels export show ?thesis
    by simp
qed

end
